theory Spec2Isabelle
  imports Complex_Main
begin

section \<open>Data model\<close>

text \<open>
  \<^verbatim>\<open>OutlineCard\<close> (from \<^verbatim>\<open>@/lib/types\<close>, used throughout): an identifier, a title and a
  1-based \<^verbatim>\<open>order\<close>. The field \<^verbatim>\<open>id\<close> is written \<open>id_c\<close>, since \<open>id\<close> is the identity
  function of HOL. JavaScript numbers that hold indices and orders are integers here.
\<close>

record OutlineCard =
  id_c :: string
  title :: string
  order :: int

section \<open>JavaScript array operations used by the components\<close>

text \<open>
  \<^verbatim>\<open>Array.prototype.findIndex\<close>: the index of the first element that satisfies the
  predicate, \<open>-1\<close> when there is none.
\<close>

fun findIndexFrom :: "nat \<Rightarrow> ('a \<Rightarrow> bool) \<Rightarrow> 'a list \<Rightarrow> int" where
  "findIndexFrom k p [] = -1"
| "findIndexFrom k p (x # xs) = (if p x then int k else findIndexFrom (Suc k) p xs)"

definition findIndex :: "('a \<Rightarrow> bool) \<Rightarrow> 'a list \<Rightarrow> int" where
  "findIndex p xs = findIndexFrom 0 p xs"

text \<open>
  \<^verbatim>\<open>Array.prototype.splice(start, deleteCount, ...items)\<close>: a negative \<^verbatim>\<open>start\<close> counts
  from the end, a \<^verbatim>\<open>start\<close> beyond the length is the length; the result is the pair of
  the removed elements and the array after the call.
\<close>

definition spliceStart :: "int \<Rightarrow> nat \<Rightarrow> nat" where
  "spliceStart start len =
     (if start < 0 then nat (max (int len + start) 0) else min (nat start) len)"

definition splice :: "int \<Rightarrow> nat \<Rightarrow> 'a list \<Rightarrow> 'a list \<Rightarrow> 'a list \<times> 'a list" where
  "splice start deleteCount items xs =
     (let s = spliceStart start (length xs);
          d = min deleteCount (length xs - s)
      in (take d (drop s xs), take s xs @ items @ drop (s + d) xs))"

text \<open>
  \<^verbatim>\<open>Array.prototype.slice(start, end)\<close> with the same treatment of negative and
  too large positions; \<^verbatim>\<open>slice(start)\<close> runs to the end of the array.
\<close>

definition slice :: "int \<Rightarrow> int \<Rightarrow> 'a list \<Rightarrow> 'a list" where
  "slice start end xs =
     (let s = spliceStart start (length xs); e = spliceStart end (length xs)
      in take (e - s) (drop s xs))"

definition sliceFrom :: "int \<Rightarrow> 'a list \<Rightarrow> 'a list" where
  "sliceFrom start xs = drop (spliceStart start (length xs)) xs"

text \<open>
  \<^verbatim>\<open>cards.map((card, index) => ({...card, order: index + 1}))\<close>, the renumbering that
  \<^verbatim>\<open>onDrop\<close> and \<^verbatim>\<open>onCardDelete\<close> apply before they commit.
\<close>

definition renumber :: "OutlineCard list \<Rightarrow> OutlineCard list" where
  "renumber cards = map (\<lambda>(index, card). card\<lparr>order := int index + 1\<rparr>) (enumerate 0 cards)"

section \<open>The outline store (\<^verbatim>\<open>useCreativeAIStore\<close>)\<close>

record CreativeAIStore =
  outlines :: "OutlineCard list"
  currentAiPrompt :: string

definition initialStore :: CreativeAIStore where
  "initialStore = \<lparr>outlines = [], currentAiPrompt = ''''\<rparr>"

definition setCurrentAiPrompt :: "string \<Rightarrow> CreativeAIStore \<Rightarrow> CreativeAIStore" where
  "setCurrentAiPrompt prompt state = state\<lparr>currentAiPrompt := prompt\<rparr>"

definition addOutline :: "OutlineCard \<Rightarrow> CreativeAIStore \<Rightarrow> CreativeAIStore" where
  "addOutline outline state = state\<lparr>outlines := outline # outlines state\<rparr>"

definition addMultipleOutlines :: "OutlineCard list \<Rightarrow> CreativeAIStore \<Rightarrow> CreativeAIStore" where
  "addMultipleOutlines cards state = state\<lparr>outlines := cards\<rparr>"

definition resetOutlines :: "CreativeAIStore \<Rightarrow> CreativeAIStore" where
  "resetOutlines state = state\<lparr>outlines := []\<rparr>"

section \<open>The card list (\<^verbatim>\<open>CardList.tsx\<close>)\<close>

text \<open>
  The component reads \<^verbatim>\<open>outlines\<close> and \<^verbatim>\<open>editText\<close> from its props and owns the two
  pieces of drag state. One record holds the store, the state of the page component
  (\<^verbatim>\<open>CreativeAI.tsx\<close>) that the handlers write through the setters they are given, the
  drag state, and \<open>effects\<close>: the calls that leave the page (notifications, server
  actions, navigation, the prompt store and the slide store), in the order they are made.
\<close>

record Project =
  id_p :: string

record PromptRecord =
  id_r :: string
  title_r :: string
  outlines_r :: "OutlineCard list"
  createdAt :: string

datatype effect =
    ToastError string string
  | ToastSuccess string string
  | GenerateCreativePrompt string int
  | CreateProject string "OutlineCard list"
  | RouterPush string
  | SetProject Project
  | AddPrompt PromptRecord
  | ConsoleLog

record page =
  store :: CreativeAIStore
  editingCard :: "string option"
  selectedCard :: "string option"
  editText :: string
  isGenerating :: bool
  noOfCards :: int
  dragOverIndex :: "int option"
  draggedItem :: "OutlineCard option"
  effects :: "effect list"

definition commitOutlines :: "OutlineCard list \<Rightarrow> page \<Rightarrow> page" where
  "commitOutlines cards st = st\<lparr>store := addMultipleOutlines cards (store st)\<rparr>"

text \<open>
  \<^verbatim>\<open>onDragOver(e, index)\<close>: \<open>clientY\<close>, \<open>rectTop\<close> and \<open>rectHeight\<close> are the pointer
  position and the hovered element's bounding box; the comparison is the one of the source, over the
  reals.
\<close>

definition onDragOver :: "real \<Rightarrow> real \<Rightarrow> real \<Rightarrow> int \<Rightarrow> page \<Rightarrow> page" where
  "onDragOver clientY rectTop rectHeight index st =
     (if draggedItem st = None then st
      else let y = clientY - rectTop; threshhold = rectHeight / 2
           in if y < threshhold then st\<lparr>dragOverIndex := Some index\<rparr>
              else st\<lparr>dragOverIndex := Some (index + 1)\<rparr>)"

text \<open>
  \<^verbatim>\<open>onDrop\<close>. The destructuring \<^verbatim>\<open>const [removeCard] = updatedCards.splice(draggedIndex, 1)\<close>
  takes the first removed element; \<^verbatim>\<open>draggedIndex\<close> is a position of the array there, so
  exactly one element is removed (lemma \<open>splice_remove_one\<close> below).
\<close>

definition onDrop :: "page \<Rightarrow> page" where
  "onDrop st =
     (case draggedItem st of
        None \<Rightarrow> st
      | Some dragged \<Rightarrow>
         (case dragOverIndex st of
            None \<Rightarrow> st
          | Some over \<Rightarrow>
             (let updatedCards = outlines (store st);
                  draggedIndex = findIndex (\<lambda>card. id_c card = id_c dragged) updatedCards
              in if draggedIndex = -1 \<or> draggedIndex = over then st
                 else
                   let (removed, rest) = splice draggedIndex 1 [] updatedCards;
                       target = (if over > draggedIndex then over - 1 else over);
                       moved = snd (splice target 0 (take 1 removed) rest)
                   in (commitOutlines (renumber moved) st)
                        \<lparr>draggedItem := None, dragOverIndex := None\<rparr>)))"

definition onCardUpdate :: "string \<Rightarrow> string \<Rightarrow> page \<Rightarrow> page" where
  "onCardUpdate i newTitle st =
     (commitOutlines
        (map (\<lambda>card. if id_c card = i then card\<lparr>title := newTitle\<rparr> else card)
           (outlines (store st))) st)
       \<lparr>editingCard := None, selectedCard := None, editText := ''''\<rparr>"

definition onCardDelete :: "string \<Rightarrow> page \<Rightarrow> page" where
  "onCardDelete i st =
     commitOutlines (renumber (filter (\<lambda>card. id_c card \<noteq> i) (outlines (store st)))) st"

text \<open>
  \<^verbatim>\<open>onDragStart\<close> stores the dragged card; the callback it defers with
  \<^verbatim>\<open>setTimeout(..., 0)\<close> sets the hover index to the card's position in the list the
  handler saw. \<^verbatim>\<open>onDragEnd\<close> clears both.
\<close>

definition onDragStart :: "OutlineCard \<Rightarrow> page \<Rightarrow> page" where
  "onDragStart dragged st = st\<lparr>draggedItem := Some dragged\<rparr>"

definition onDragStartDeferred :: "OutlineCard list \<Rightarrow> OutlineCard \<Rightarrow> page \<Rightarrow> page" where
  "onDragStartDeferred seen dragged st =
     st\<lparr>dragOverIndex := Some (findIndex (\<lambda>c. id_c c = id_c dragged) seen)\<rparr>"

definition onDragEnd :: "page \<Rightarrow> page" where
  "onDragEnd st = st\<lparr>draggedItem := None, dragOverIndex := None\<rparr>"

text \<open>
  \<^verbatim>\<open>onAddCard(index?)\<close>. \<open>newId\<close> is the identifier the source draws with
  \<^verbatim>\<open>Math.random().toString(36).substr(2, 9)\<close>. The anchor is an array index: the only
  call of the source is \<^verbatim>\<open>onAddCard(index)\<close> inside \<^verbatim>\<open>outlines.map((card, index) => ...)\<close>.
\<close>

definition onAddCard :: "string \<Rightarrow> nat option \<Rightarrow> page \<Rightarrow> page" where
  "onAddCard newId index st =
     (let cards = outlines (store st);
          newCard = \<lparr>id_c = newId,
                     title = (if editText st = '''' then ''New Section'' else editText st),
                     order = (case index of Some i \<Rightarrow> int i + 1 | None \<Rightarrow> int (length cards)) + 1\<rparr>;
          updatedCards =
            (case index of
               Some i \<Rightarrow>
                 slice 0 (int i + 1) cards @ [newCard]
                   @ map (\<lambda>card. card\<lparr>order := order card + 1\<rparr>) (sliceFrom (int i + 1) cards)
             | None \<Rightarrow> cards @ [newCard])
      in (commitOutlines updatedCards st)\<lparr>editText := ''''\<rparr>)"

section \<open>The page component (\<^verbatim>\<open>CreativeAI.tsx\<close>)\<close>

text \<open>
  A server action is awaited; its promise is either rejected or resolved with a response
  \<^verbatim>\<open>{status, data}\<close>. The response is a parameter of the handler that awaits it.
\<close>

datatype 'a outcome = Rejected | Resolved 'a

record 'a response =
  status :: int
  data :: "'a option"


definition toast :: "effect \<Rightarrow> page \<Rightarrow> page" where
  "toast e st = st\<lparr>effects := effects st @ [e]\<rparr>"

definition resetCards :: "page \<Rightarrow> page" where
  "resetCards st =
     st\<lparr>editingCard := None, selectedCard := None, editText := '''',
        store := resetOutlines (setCurrentAiPrompt '''' (store st))\<rparr>"


text \<open>
  \<^verbatim>\<open>handleGenerate\<close>. The guard on the empty list returns before the \<^verbatim>\<open>try\<close> block, so
  its \<^verbatim>\<open>finally\<close> does not run there. A rejected promise and the \<^verbatim>\<open>throw\<close> both reach the
  \<^verbatim>\<open>catch\<close> block.
\<close>

definition createProjectFailed :: "page \<Rightarrow> page" where
  "createProjectFailed st =
     (toast (ToastError ''Error'' ''Failed to create project'') (toast ConsoleLog st))
       \<lparr>isGenerating := False\<rparr>"

definition handleGenerate :: "string \<Rightarrow> string \<Rightarrow> Project response outcome \<Rightarrow> page \<Rightarrow> page" where
  "handleGenerate newId date res st =
     (let st1 = st\<lparr>isGenerating := True\<rparr>;
          cards = outlines (store st);
          prompt = currentAiPrompt (store st)
      in if length cards = 0
         then toast (ToastError ''ERROR'' ''Please add at least one card to generate slides'') st1
         else
           let st2 = toast (CreateProject prompt (slice 0 (noOfCards st) cards)) st1
           in case res of
                Rejected \<Rightarrow> createProjectFailed st2
              | Resolved r \<Rightarrow>
                  (case (if status r \<noteq> 200 then None else data r) of
                     None \<Rightarrow> createProjectFailed st2
                   | Some project \<Rightarrow>
                       (let st3 = toast (RouterPush (''/presentation/'' @ id_p project @ ''/select-theme'')) st2;
                            st4 = toast (SetProject project) st3;
                            st5 = toast (AddPrompt
                                    \<lparr>id_r = newId,
                                     title_r = (if prompt = '''' then title (hd cards) else prompt),
                                     outlines_r = cards,
                                     createdAt = date\<rparr>) st4;
                            st6 = toast (ToastSuccess ''Success'' ''Project created successfully! '') st5
                        in st6\<lparr>store := resetOutlines (setCurrentAiPrompt '''' (store st6)),
                               isGenerating := False\<rparr>)))"

text \<open>
  The only call of \<^verbatim>\<open>handleGenerate\<close> is the click on the Generate button, which the page
  renders under \<^verbatim>\<open>outlines.length > 0 && (...)\<close> with \<^verbatim>\<open>disabled={isGenerating}\<close>. Where the
  page has no such button, or a disabled one, there is no click: \<open>None\<close>.
\<close>

definition generateButtonClick ::
  "string \<Rightarrow> string \<Rightarrow> Project response outcome \<Rightarrow> page \<Rightarrow> page option" where
  "generateButtonClick newId date res st =
     (if length (outlines (store st)) > 0
      then (if isGenerating st then None else Some (handleGenerate newId date res st))
      else None)"

text \<open>
  \<^verbatim>\<open>useEffect(() => setNoOfCards(outlines.length), [outlines.length])\<close>: the effect runs
  after the first render (\<open>previous = None\<close>) and after a render in which the length
  differs from the one of the previous render. The select box sets the counter to the
  number the user picks.
\<close>

definition noOfCardsEffect :: "nat option \<Rightarrow> page \<Rightarrow> page" where
  "noOfCardsEffect previous st =
     (if previous = Some (length (outlines (store st))) then st
      else st\<lparr>noOfCards := int (length (outlines (store st)))\<rparr>)"

definition onValueChange :: "int \<Rightarrow> page \<Rightarrow> page" where
  "onValueChange picked st = st\<lparr>noOfCards := picked\<rparr>"

definition mkPage :: "OutlineCard list \<Rightarrow> string \<Rightarrow> page" where
  "mkPage cards prompt =
     \<lparr>store = \<lparr>outlines = cards, currentAiPrompt = prompt\<rparr>, editingCard = None,
      selectedCard = None, editText = '''', isGenerating = False, noOfCards = 0,
      dragOverIndex = None, draggedItem = None, effects = []\<rparr>"

section \<open>Sequences of list operations\<close>

text \<open>
  The three operations of the card list that change the outline list, each with what the
  handler reads when it runs: the generated identifier, the anchor and the edit text for
  \<^verbatim>\<open>onAddCard\<close>; the identifier for \<^verbatim>\<open>onCardDelete\<close>; the drag state for \<^verbatim>\<open>onDrop\<close>.
\<close>

datatype listOp =
    AddCard string "nat option" string
  | CardDelete string
  | Drop "OutlineCard option" "int option"

fun applyOp :: "listOp \<Rightarrow> page \<Rightarrow> page" where
  "applyOp (AddCard newId index text) st = onAddCard newId index (st\<lparr>editText := text\<rparr>)"
| "applyOp (CardDelete i) st = onCardDelete i st"
| "applyOp (Drop dragged over) st = onDrop (st\<lparr>draggedItem := dragged, dragOverIndex := over\<rparr>)"

text \<open>
  The component offers \<^verbatim>\<open>onAddCard(index)\<close> once per rendered card
  (\<^verbatim>\<open>outlines.map((card, index) => ... <AddCartButton onAddCard={() => onAddCard(index)}/>)\<close>),
  so an anchor is the index of a card of the list.
\<close>

fun offered :: "listOp \<Rightarrow> page \<Rightarrow> bool" where
  "offered (AddCard newId (Some i) text) st = (i < length (outlines (store st)))"
| "offered (AddCard newId None text) st = True"
| "offered (CardDelete i) st = True"
| "offered (Drop dragged over) st = True"

fun allOffered :: "listOp list \<Rightarrow> page \<Rightarrow> bool" where
  "allOffered [] st = True"
| "allOffered (x # ops) st = (offered x st \<and> allOffered ops (applyOp x st))"

text \<open>The states after each operation of a sequence, in order.\<close>

fun runOps :: "listOp list \<Rightarrow> page \<Rightarrow> page list" where
  "runOps [] st = []"
| "runOps (x # ops) st = applyOp x st # runOps ops (applyOp x st)"

text \<open>
  Order contiguity: the \<^verbatim>\<open>order\<close> fields of a list of \<open>N\<close> cards are \<open>1, 2, ..., N\<close> in array
  order.
\<close>

definition contiguous :: "OutlineCard list \<Rightarrow> bool" where
  "contiguous cards = (map order cards = [1..int (length cards)])"

text \<open>
  A move within one array: the element at position \<open>i\<close> taken out, and put back in front
  of position \<open>k\<close> of what remains.
\<close>

definition removeAt :: "nat \<Rightarrow> 'a list \<Rightarrow> 'a list" where
  "removeAt i xs = take i xs @ drop (Suc i) xs"

definition insertAt :: "nat \<Rightarrow> 'a \<Rightarrow> 'a list \<Rightarrow> 'a list" where
  "insertAt k x xs = take k xs @ x # drop k xs"

section \<open>The auto-save of the editor (\<^verbatim>\<open>Editor.tsx\<close>)\<close>

text \<open>
  The effect and \<^verbatim>\<open>saveSlides\<close> use \<^verbatim>\<open>setTimeout\<close> and \<^verbatim>\<open>clearTimeout\<close>. The editor state
  holds a clock in milliseconds, the timers that are set and have neither fired nor been
  cleared, the next timer handle, the ref \<^verbatim>\<open>autoSaveTimeoutRef\<close>, and the calls of
  \<^verbatim>\<open>updateSlides\<close> made so far, each with the time of the call, \<^verbatim>\<open>project.id\<close> and the
  slides sent. A timer carries what the closure \<^verbatim>\<open>() => saveSlides()\<close> of its render
  captured: \<^verbatim>\<open>isEditable\<close>, \<^verbatim>\<open>project\<close> and \<^verbatim>\<open>slides\<close>. A timer fires when the clock reaches
  its due time.
\<close>

record 's timer =
  handle :: nat
  due :: nat
  t_isEditable :: bool
  t_project :: "Project option"
  t_slides :: 's

record 's editor =
  now :: nat
  timers :: "'s timer list"
  nextHandle :: nat
  autoSaveTimeoutRef :: "nat option"
  updateSlidesCalls :: "(nat \<times> string \<times> 's) list"

definition initialEditor :: "'s editor" where
  "initialEditor =
     \<lparr>now = 0, timers = [], nextHandle = 1, autoSaveTimeoutRef = None, updateSlidesCalls = []\<rparr>"

definition clearTimeout :: "nat \<Rightarrow> 's editor \<Rightarrow> 's editor" where
  "clearTimeout h ed = ed\<lparr>timers := filter (\<lambda>t. handle t \<noteq> h) (timers ed)\<rparr>"

definition saveSlides :: "bool \<Rightarrow> Project option \<Rightarrow> 's \<Rightarrow> 's editor \<Rightarrow> 's editor" where
  "saveSlides isEditable project slides ed =
     (case project of
        Some p \<Rightarrow>
          (if isEditable
           then ed\<lparr>updateSlidesCalls := updateSlidesCalls ed @ [(now ed, id_p p, slides)]\<rparr>
           else ed)
      | None \<Rightarrow> ed)"

text \<open>
  The cleanup function the effect returns, which React runs before the effect runs again
  and when the component unmounts, and the body of the effect.
\<close>

definition autoSaveCleanup :: "'s editor \<Rightarrow> 's editor" where
  "autoSaveCleanup ed =
     (case autoSaveTimeoutRef ed of Some h \<Rightarrow> clearTimeout h ed | None \<Rightarrow> ed)"

definition autoSaveEffect :: "bool \<Rightarrow> Project option \<Rightarrow> 's \<Rightarrow> 's editor \<Rightarrow> 's editor" where
  "autoSaveEffect isEditable project slides ed =
     (let ed1 = (case autoSaveTimeoutRef ed of Some h \<Rightarrow> clearTimeout h ed | None \<Rightarrow> ed)
      in if isEditable
         then ed1\<lparr>timers := timers ed1 @
                     [\<lparr>handle = nextHandle ed1, due = now ed1 + 2000, t_isEditable = isEditable,
                       t_project = project, t_slides = slides\<rparr>],
                  nextHandle := nextHandle ed1 + 1,
                  autoSaveTimeoutRef := Some (nextHandle ed1)\<rparr>
         else ed1)"

text \<open>
  A timer that fires leaves the table and runs its closure at its due time. When time
  passes, the timers that are due fire in the order of their due times.
\<close>

definition fire :: "'s timer \<Rightarrow> 's editor \<Rightarrow> 's editor" where
  "fire t ed =
     saveSlides (t_isEditable t) (t_project t) (t_slides t)
       (ed\<lparr>now := due t, timers := filter (\<lambda>u. handle u \<noteq> handle t) (timers ed)\<rparr>)"

definition advance :: "nat \<Rightarrow> 's editor \<Rightarrow> 's editor" where
  "advance ms ed =
     (let target = now ed + ms;
          dueNow = sort_key due (filter (\<lambda>t. due t \<le> target) (timers ed))
      in (fold fire dueNow ed)\<lparr>now := target\<rparr>)"

text \<open>
  What happens to a mounted editor: a render in which \<^verbatim>\<open>slides\<close>, \<^verbatim>\<open>isEditable\<close> or
  \<^verbatim>\<open>project\<close> changed (the cleanup of the previous run, then the effect), time passing,
  and the unmount.
\<close>

datatype 's event = Change bool "Project option" 's | Wait nat | Unmount

fun step :: "'s event \<Rightarrow> 's editor \<Rightarrow> 's editor" where
  "step (Change isEditable project slides) ed =
     autoSaveEffect isEditable project slides (autoSaveCleanup ed)"
| "step (Wait ms) ed = advance ms ed"
| "step Unmount ed = autoSaveCleanup ed"

definition run :: "'s event list \<Rightarrow> 's editor \<Rightarrow> 's editor" where
  "run evs ed = fold step evs ed"

text \<open>
  A burst of content changes: each change comes a given time after the one before it.
  \<open>burstEnd\<close> is the time of the last change of a burst that starts at time \<open>t\<close>.
\<close>

fun burst :: "Project \<Rightarrow> (nat \<times> 's) list \<Rightarrow> 's event list" where
  "burst p [] = []"
| "burst p ((gap, slides) # cs) = Wait gap # Change True (Some p) slides # burst p cs"

fun burstEnd :: "nat \<Rightarrow> (nat \<times> 's) list \<Rightarrow> nat" where
  "burstEnd t [] = t"
| "burstEnd t ((gap, slides) # cs) = burstEnd (t + gap) cs"

fun quiet :: "(nat \<times> 's) list \<Rightarrow> bool" where
  "quiet [] = True"
| "quiet ((gap, slides) # cs) = (gap < 2000 \<and> quiet cs)"

text \<open>
  The editor with exactly one timer pending: the one the ref holds, set at the present
  time for the given project and slides.
\<close>

definition armed :: "Project \<Rightarrow> 's \<Rightarrow> 's editor \<Rightarrow> bool" where
  "armed p slides ed =
     (\<exists>h. timers ed = [\<lparr>handle = h, due = now ed + 2000, t_isEditable = True,
                         t_project = Some p, t_slides = slides\<rparr>]
          \<and> autoSaveTimeoutRef ed = Some h)"

section \<open>Example lists\<close>

text \<open>
  The lists of the scenarios: a, b, c and x, y, z with the orders 1, 2, 3. In
  \<open>overLowerHalfOfB\<close> the drag of a has started, the deferred callback has set the hover
  index to 0, and the pointer is 25 pixels below the top of b, whose box is 40 pixels
  high.
\<close>

definition abc :: "OutlineCard list" where
  "abc = [\<lparr>id_c = ''a'', title = ''A'', order = 1\<rparr>, \<lparr>id_c = ''b'', title = ''B'', order = 2\<rparr>,
          \<lparr>id_c = ''c'', title = ''C'', order = 3\<rparr>]"

definition overLowerHalfOfB :: page where
  "overLowerHalfOfB =
     onDragOver 75 50 40 1
       (onDragStartDeferred abc \<lparr>id_c = ''a'', title = ''A'', order = 1\<rparr>
          (onDragStart \<lparr>id_c = ''a'', title = ''A'', order = 1\<rparr> (mkPage abc '''')))"

definition exampleOps :: "listOp list" where
  "exampleOps =
     [AddCard ''a'' None ''A'', AddCard ''b'' (Some 0) '''',
      Drop (Some \<lparr>id_c = ''a'', title = ''A'', order = 1\<rparr>) (Some 2), CardDelete ''b'']"

definition xyz :: "OutlineCard list" where
  "xyz = [\<lparr>id_c = ''x'', title = ''X'', order = 1\<rparr>, \<lparr>id_c = ''y'', title = ''Y'', order = 2\<rparr>,
          \<lparr>id_c = ''z'', title = ''Z'', order = 3\<rparr>]"


text \<open>The page with x, y, z after the user has picked 2 in the select box.\<close>

definition picked2 :: page where
  "picked2 = onValueChange 2 (mkPage xyz ''topic'')"

section \<open>Facts about the array operations\<close>

lemma length_renumber [simp]: "length (renumber cards) = length cards"
  by (simp add: renumber_def)

lemma nth_renumber:
  "i < length cards \<Longrightarrow> renumber cards ! i = (cards ! i)\<lparr>order := int i + 1\<rparr>"
  by (simp add: renumber_def nth_enumerate_eq)

lemma map_order_renumber: "map order (renumber cards) = map (\<lambda>i. int i + 1) [0..<length cards]"
  by (rule nth_equalityI) (simp_all add: nth_renumber)

lemma map_id_renumber: "map id_c (renumber cards) = map id_c cards"
  by (rule nth_equalityI) (simp_all add: nth_renumber)

lemma map_title_renumber: "map title (renumber cards) = map title cards"
  by (rule nth_equalityI) (simp_all add: nth_renumber)

lemma upto_as_upt: "map (\<lambda>i. int i + 1) [0..<n] = [1..int n]"
proof (induction n)
  case 0
  show ?case by simp
next
  case (Suc n)
  have "[1..int (Suc n)] = [1..int n] @ [int n + 1]"
    using upto_rec2 [of 1 "int n + 1"] by (simp add: add.commute)
  with Suc show ?case by simp
qed


lemma findIndexFrom_range:
  "findIndexFrom k p xs = -1
   \<or> (int k \<le> findIndexFrom k p xs \<and> findIndexFrom k p xs < int k + int (length xs))"
  by (induction xs arbitrary: k) fastforce+

lemma findIndexFrom_nth:
  "findIndexFrom k p xs = int k + int i \<Longrightarrow>
   i < length xs \<and> p (xs ! i) \<and> (\<forall>j < i. \<not> p (xs ! j))"
proof (induction xs arbitrary: k i)
  case Nil
  then show ?case by simp
next
  case (Cons x xs)
  show ?case
  proof (cases "p x")
    case True
    with Cons.prems show ?thesis by simp
  next
    case False
    with Cons.prems have eq: "findIndexFrom (Suc k) p xs = int k + int i" by simp
    from findIndexFrom_range [of "Suc k" p xs] eq have "i \<noteq> 0" by auto
    then obtain i' where i': "i = Suc i'" by (cases i) auto
    with eq have "findIndexFrom (Suc k) p xs = int (Suc k) + int i'" by simp
    from Cons.IH [OF this] False i' show ?thesis
      by (auto simp: nth_Cons split: nat.splits)
  qed
qed


lemma findIndex_nth:
  "findIndex p xs = int i \<Longrightarrow> i < length xs \<and> p (xs ! i) \<and> (\<forall>j < i. \<not> p (xs ! j))"
  using findIndexFrom_nth [of 0 p xs i] by (simp add: findIndex_def)

lemma splice_remove_one:
  "i < length xs \<Longrightarrow> splice (int i) 1 [] xs = ([xs ! i], take i xs @ drop (Suc i) xs)"
  by (simp add: splice_def spliceStart_def Let_def take_Suc_conv_app_nth min_def
      hd_drop_conv_nth take_Suc)

lemma splice_insert:
  "0 \<le> k \<Longrightarrow> snd (splice k 0 items xs) = take (nat k) xs @ items @ drop (nat k) xs"
  by (auto simp add: splice_def spliceStart_def Let_def min_def)

lemma slice_prefix: "slice 0 (int n) xs = take n xs"
  by (simp add: slice_def spliceStart_def Let_def min_def)

lemma sliceFrom_nat: "sliceFrom (int n) xs = drop n xs"
  by (simp add: sliceFrom_def spliceStart_def min_def)

lemma contiguous_renumber: "contiguous (renumber cards)"
  by (simp add: contiguous_def map_order_renumber upto_as_upt)

section \<open>Facts about the card list\<close>

lemma outlines_commitOutlines [simp]: "outlines (store (commitOutlines cards st)) = cards"
  by (simp add: commitOutlines_def addMultipleOutlines_def)

lemma outlines_onCardDelete:
  "outlines (store (onCardDelete i st)) =
     renumber (filter (\<lambda>c. id_c c \<noteq> i) (outlines (store st)))"
  by (simp add: onCardDelete_def)

lemma length_filter_neq:
  "length (filter (\<lambda>c. id_c c = i) cards) = 1 \<Longrightarrow>
   length (filter (\<lambda>c. id_c c \<noteq> i) cards) = length cards - 1"
  using sum_length_filter_compl [of "\<lambda>c. id_c c = i" cards] by simp

lemma outlines_onAddCard:
  "outlines (store (onAddCard newId index st)) =
     (let cards = outlines (store st);
          newTitle = (if editText st = '''' then ''New Section'' else editText st)
      in case index of
           Some i \<Rightarrow> take (Suc i) cards @ [\<lparr>id_c = newId, title = newTitle, order = int i + 2\<rparr>]
                       @ map (\<lambda>c. c\<lparr>order := order c + 1\<rparr>) (drop (Suc i) cards)
         | None \<Rightarrow> cards @ [\<lparr>id_c = newId, title = newTitle, order = int (length cards) + 1\<rparr>])"
proof -
  have a: "\<And>i xs. slice 0 (int i + 1) (xs::OutlineCard list) = take (Suc i) xs"
    using slice_prefix [of "Suc _"] by (simp add: add.commute)
  have b: "\<And>i xs. sliceFrom (int i + 1) (xs::OutlineCard list) = drop (Suc i) xs"
    using sliceFrom_nat [of "Suc _"] by (simp add: add.commute)
  show ?thesis
    by (simp add: onAddCard_def Let_def a b split: option.splits)
qed

lemma contiguous_onAddCard:
  assumes "contiguous (outlines (store st))"
    and "case index of Some i \<Rightarrow> i < length (outlines (store st)) | None \<Rightarrow> True"
  shows "contiguous (outlines (store (onAddCard newId index st)))"
proof (cases index)
  case None
  have "[1..int (length (outlines (store st))) + 1]
        = [1..int (length (outlines (store st)))] @ [int (length (outlines (store st))) + 1]"
    using upto_rec2 [of 1 "int (length (outlines (store st))) + 1"] by simp
  with assms None show ?thesis
    by (simp add: contiguous_def outlines_onAddCard Let_def add.commute)
next
  case (Some i)
  let ?cards = "outlines (store st)"
  let ?new = "outlines (store (onAddCard newId index st))"
  from assms Some have i: "i < length ?cards" by simp
  have ord: "\<And>k. k < length ?cards \<Longrightarrow> order (?cards ! k) = int k + 1"
  proof -
    fix k assume k: "k < length ?cards"
    have "order (?cards ! k) = map order ?cards ! k" using k by simp
    also have "\<dots> = map (\<lambda>i. int i + 1) [0..<length ?cards] ! k"
      using assms(1) by (simp add: contiguous_def upto_as_upt)
    finally show "order (?cards ! k) = int k + 1" using k by simp
  qed
  have len: "length ?new = Suc (length ?cards)"
    using i Some by (simp add: outlines_onAddCard Let_def)
  have "map order ?new = map (\<lambda>i. int i + 1) [0..<length ?new]"
  proof (rule nth_equalityI)
    show "length (map order ?new) = length (map (\<lambda>i. int i + 1) [0..<length ?new])" by simp
  next
    fix k assume "k < length (map order ?new)"
    then have k: "k < Suc (length ?cards)" using len by simp
    consider "k \<le> i" | "k = Suc i" | "Suc i < k" by linarith
    then have "order (?new ! k) = int k + 1"
    proof cases
      case 1
      then show ?thesis using i Some ord [of k]
        by (simp add: outlines_onAddCard Let_def nth_append)
    next
      case 2
      then show ?thesis using i Some
        by (simp add: outlines_onAddCard Let_def nth_append min_def)
    next
      case 3
      then obtain j where j: "k = Suc (Suc i) + j" using less_iff_Suc_add by auto
      then show ?thesis using i Some k ord [of "Suc i + j"]
        by (simp add: outlines_onAddCard Let_def nth_append min_def)
    qed
    then show "map order ?new ! k = map (\<lambda>i. int i + 1) [0..<length ?new] ! k"
      using k len by (simp del: upt_Suc)
  qed
  then show ?thesis by (simp add: contiguous_def upto_as_upt)
qed

lemma onDrop_cases:
  "outlines (store (onDrop st)) = outlines (store st)
   \<or> (\<exists>ys. outlines (store (onDrop st)) = renumber ys)"
  by (auto simp: onDrop_def Let_def split: option.splits prod.splits)

lemma contiguous_onDrop:
  "contiguous (outlines (store st)) \<Longrightarrow> contiguous (outlines (store (onDrop st)))"
  using onDrop_cases [of st] by (auto simp: contiguous_renumber)

lemma contiguous_onCardDelete: "contiguous (outlines (store (onCardDelete i st)))"
  by (simp add: onCardDelete_def contiguous_renumber)

lemma contiguous_applyOp:
  "contiguous (outlines (store st)) \<Longrightarrow> offered x st \<Longrightarrow>
   contiguous (outlines (store (applyOp x st)))"
proof (cases x)
  case (AddCard newId index t)
  assume c: "contiguous (outlines (store st))" and e: "offered x st"
  have "contiguous (outlines (store (onAddCard newId index (st\<lparr>editText := t\<rparr>))))"
  proof (rule contiguous_onAddCard)
    show "contiguous (outlines (store (st\<lparr>editText := t\<rparr>)))" using c by simp
    show "case index of None \<Rightarrow> True
          | Some i \<Rightarrow> i < length (outlines (store (st\<lparr>editText := t\<rparr>)))"
      using e AddCard by (cases index) simp_all
  qed
  with AddCard show ?thesis by simp
next
  case (CardDelete i)
  then show ?thesis by (simp add: contiguous_onCardDelete)
next
  case (Drop dragged over)
  assume c: "contiguous (outlines (store st))"
  have "contiguous (outlines (store (onDrop (st\<lparr>draggedItem := dragged, dragOverIndex := over\<rparr>))))"
    by (rule contiguous_onDrop) (use c in simp)
  with Drop show ?thesis by simp
qed

lemma contiguous_runOps:
  "contiguous (outlines (store st)) \<Longrightarrow> allOffered ops st \<Longrightarrow>
   \<forall>st' \<in> set (runOps ops st). contiguous (outlines (store st'))"
proof (induction ops arbitrary: st)
  case Nil
  show ?case by simp
next
  case (Cons x ops)
  from Cons.prems have c: "contiguous (outlines (store (applyOp x st)))"
    by (simp add: contiguous_applyOp)
  from Cons.prems have "allOffered ops (applyOp x st)" by simp
  from Cons.IH [OF c this] c show ?case by simp
qed

section \<open>Order contiguity\<close>

text \<open>
  \<^verbatim>\<open>onAddCard\<close> renumbers only the cards behind the anchor and gives the new card the order
  \<open>index + 2\<close>, so it relies on an anchor inside the list: with the anchor 0 on the empty
  list, a call the component never makes (no card is rendered there, hence no button),
  the one card would get the order 2.
\<close>

lemma onAddCard_anchor_outside:
  "outlines (store (onAddCard ''n'' (Some 0) (mkPage [] '''')))
     = [\<lparr>id_c = ''n'', title = ''New Section'', order = 2\<rparr>]"
  by (simp add: outlines_onAddCard mkPage_def)

text \<open>
  Claim C1. Starting from an empty outline list, after every operation of a sequence of
  inserts (\<^verbatim>\<open>onAddCard\<close>), deletes (\<^verbatim>\<open>onCardDelete\<close>) and moves (\<^verbatim>\<open>onDrop\<close>) the list of
  \<open>N\<close> cards has the \<^verbatim>\<open>order\<close> fields \<open>1, 2, ..., N\<close> in array order. An anchored insert
  takes the index of a card of the list, as the component offers it; the identifiers, the
  edit text and the drag state of each operation are arbitrary.
\<close>

theorem order_contiguity:
  assumes "outlines (store st) = []" and "allOffered ops st"
  shows "\<forall>st' \<in> set (runOps ops st). contiguous (outlines (store st'))"
  using assms by (intro contiguous_runOps) (simp_all add: contiguous_def)

theorem order_contiguity_witness:
  "outlines (store (mkPage [] '''')) = []
   \<and> allOffered exampleOps (mkPage [] '''')
   \<and> list_all (\<lambda>st'. contiguous (outlines (store st'))) (runOps exampleOps (mkPage [] ''''))"
proof -
  have e: "outlines (store (mkPage [] '''')) = []"
    by (simp add: mkPage_def)
  have o: "allOffered exampleOps (mkPage [] '''')"
    by (simp add: exampleOps_def mkPage_def outlines_onAddCard)
  from order_contiguity [OF e o] e o show ?thesis
    unfolding list_all_iff by blast
qed

section \<open>Moving a card\<close>

text \<open>
  Claim C2. When the dragged card's identifier is found at index \<open>i\<close> of the outline list
  and the hover index \<open>j\<close> differs from \<open>i\<close>, the list that \<^verbatim>\<open>onDrop\<close> commits is the
  original with the card taken out of position \<open>i\<close> and put in at position \<open>j\<close>, one less
  when \<open>j > i\<close>, and then renumbered. For the list a, b, c with orders 1, 2, 3, dragging a
  and dropping in the lower half of b gives b, a, c with orders 1, 2, 3 (the witness).
\<close>

theorem onDrop_move:
  assumes "draggedItem st = Some dragged" and "dragOverIndex st = Some j"
    and "findIndex (\<lambda>c. id_c c = id_c dragged) (outlines (store st)) = int i"
    and "j \<noteq> int i" and "0 \<le> j"
  shows "outlines (store (onDrop st)) =
           renumber (insertAt (if int i < j then nat j - 1 else nat j) (outlines (store st) ! i)
                      (removeAt i (outlines (store st))))"
proof -
  let ?xs = "outlines (store st)"
  from findIndex_nth [OF assms(3)] have i: "i < length ?xs" by simp
  have rem: "splice (int i) 1 [] ?xs = ([?xs ! i], removeAt i ?xs)"
    using splice_remove_one [OF i] by (simp add: removeAt_def)
  define target where "target = (if int i < j then j - 1 else j)"
  have tgt: "0 \<le> target" using assms(5) by (simp add: target_def)
  have ins: "snd (splice target 0 [?xs ! i] (removeAt i ?xs))
             = insertAt (nat target) (?xs ! i) (removeAt i ?xs)"
    using splice_insert [OF tgt, of "[?xs ! i]" "removeAt i ?xs"] by (simp add: insertAt_def)
  have n: "nat target = (if int i < j then nat j - 1 else nat j)"
    by (simp add: target_def nat_diff_distrib')
  have "outlines (store (onDrop st)) = renumber (snd (splice target 0 [?xs ! i] (removeAt i ?xs)))"
    using assms(1-4) rem by (simp add: onDrop_def Let_def target_def)
  with ins n show ?thesis by simp
qed

theorem onDrop_move_witness:
  "draggedItem overLowerHalfOfB = Some \<lparr>id_c = ''a'', title = ''A'', order = 1\<rparr>
   \<and> dragOverIndex overLowerHalfOfB = Some 2
   \<and> findIndex (\<lambda>c. id_c c = ''a'') (outlines (store overLowerHalfOfB)) = 0
   \<and> outlines (store (onDrop overLowerHalfOfB)) =
       [\<lparr>id_c = ''b'', title = ''B'', order = 1\<rparr>, \<lparr>id_c = ''a'', title = ''A'', order = 2\<rparr>,
        \<lparr>id_c = ''c'', title = ''C'', order = 3\<rparr>]"
proof -
  have d: "draggedItem overLowerHalfOfB = Some \<lparr>id_c = ''a'', title = ''A'', order = 1\<rparr>"
    by (simp add: overLowerHalfOfB_def onDragOver_def onDragStartDeferred_def onDragStart_def
        mkPage_def Let_def)
  have h: "dragOverIndex overLowerHalfOfB = Some 2"
    by (simp add: overLowerHalfOfB_def onDragOver_def onDragStartDeferred_def onDragStart_def
        mkPage_def Let_def)
  have xs: "outlines (store overLowerHalfOfB) = abc"
    by (simp add: overLowerHalfOfB_def onDragOver_def onDragStartDeferred_def onDragStart_def
        mkPage_def Let_def)
  have f: "findIndex (\<lambda>c. id_c c = id_c \<lparr>id_c = ''a'', title = ''A'', order = 1\<rparr>)
             (outlines (store overLowerHalfOfB)) = int 0"
    by (simp add: xs abc_def findIndex_def)
  have r: "renumber (insertAt (if int 0 < 2 then nat 2 - 1 else nat 2) (abc ! 0) (removeAt 0 abc))
           = [\<lparr>id_c = ''b'', title = ''B'', order = 1\<rparr>, \<lparr>id_c = ''a'', title = ''A'', order = 2\<rparr>,
              \<lparr>id_c = ''c'', title = ''C'', order = 3\<rparr>]"
    by (simp add: abc_def insertAt_def removeAt_def renumber_def enumerate_eq_zip upt_rec)
  from onDrop_move [OF d h f] xs r f d h show ?thesis by simp
qed

section \<open>Inserting a card\<close>

text \<open>
  Claim C3, as the code has it. \<^verbatim>\<open>onAddCard(index)\<close> puts the new card, with the generated
  identifier and the order \<open>index + 2\<close>, right after the card at array index \<open>index\<close>
  (counted from 0) and raises the order of every later card by one; without an anchor the
  card is appended with the order \<open>N + 1\<close>. Anchored at index 0, the list x, y with orders
  1, 2 becomes x, new, y with orders 1, 2, 3.
\<close>

theorem onAddCard_insert:
  "outlines (store (onAddCard newId (Some i) st)) =
     take (Suc i) (outlines (store st))
       @ [\<lparr>id_c = newId, title = (if editText st = '''' then ''New Section'' else editText st),
            order = int i + 2\<rparr>]
       @ map (\<lambda>c. c\<lparr>order := order c + 1\<rparr>) (drop (Suc i) (outlines (store st)))
   \<and> outlines (store (onAddCard newId None st)) =
       outlines (store st)
         @ [\<lparr>id_c = newId, title = (if editText st = '''' then ''New Section'' else editText st),
              order = int (length (outlines (store st))) + 1\<rparr>]
   \<and> outlines (store (onAddCard ''new'' (Some 0)
        (mkPage [\<lparr>id_c = ''x'', title = ''X'', order = 1\<rparr>, \<lparr>id_c = ''y'', title = ''Y'', order = 2\<rparr>] '''')))
       = [\<lparr>id_c = ''x'', title = ''X'', order = 1\<rparr>,
          \<lparr>id_c = ''new'', title = ''New Section'', order = 2\<rparr>,
          \<lparr>id_c = ''y'', title = ''Y'', order = 3\<rparr>]"
  by (simp add: outlines_onAddCard mkPage_def Let_def)

text \<open>
  Anchored at index 1, the same list becomes x, y, new with orders 1, 2, 3, not
  x, new, y.
\<close>

theorem onAddCard_index_1_counterexample:
  "outlines (store (onAddCard ''new'' (Some 1)
      (mkPage [\<lparr>id_c = ''x'', title = ''X'', order = 1\<rparr>, \<lparr>id_c = ''y'', title = ''Y'', order = 2\<rparr>] '''')))
     = [\<lparr>id_c = ''x'', title = ''X'', order = 1\<rparr>, \<lparr>id_c = ''y'', title = ''Y'', order = 2\<rparr>,
        \<lparr>id_c = ''new'', title = ''New Section'', order = 3\<rparr>]
   \<and> outlines (store (onAddCard ''new'' (Some 1)
      (mkPage [\<lparr>id_c = ''x'', title = ''X'', order = 1\<rparr>, \<lparr>id_c = ''y'', title = ''Y'', order = 2\<rparr>] '''')))
     \<noteq> [\<lparr>id_c = ''x'', title = ''X'', order = 1\<rparr>,
         \<lparr>id_c = ''new'', title = ''New Section'', order = 2\<rparr>,
         \<lparr>id_c = ''y'', title = ''Y'', order = 3\<rparr>]"
  by (simp add: outlines_onAddCard mkPage_def Let_def)

section \<open>A drop that changes nothing\<close>






section \<open>Deleting a card\<close>

text \<open>
  Claim C5. For an outline list with exactly one card of the given identifier,
  \<^verbatim>\<open>onCardDelete\<close> commits a list that is one card shorter, in which the other cards keep
  their relative order, identifiers and titles, and whose orders are \<open>1, 2, ...\<close> without
  a gap. Deleting y from x, y, z with orders 1, 2, 3 gives x, z with orders 1, 2 (the
  witness).
\<close>

theorem onCardDelete_by_id:
  assumes "length (filter (\<lambda>c. id_c c = i) (outlines (store st))) = 1"
  shows "length (outlines (store (onCardDelete i st))) = length (outlines (store st)) - 1
       \<and> map (\<lambda>c. (id_c c, title c)) (outlines (store (onCardDelete i st)))
           = map (\<lambda>c. (id_c c, title c)) (filter (\<lambda>c. id_c c \<noteq> i) (outlines (store st)))
       \<and> contiguous (outlines (store (onCardDelete i st)))"
proof -
  let ?rest = "filter (\<lambda>c. id_c c \<noteq> i) (outlines (store st))"
  have len: "length ?rest = length (outlines (store st)) - 1"
    using assms by (rule length_filter_neq)
  have keep: "map (\<lambda>c. (id_c c, title c)) (renumber ?rest) = map (\<lambda>c. (id_c c, title c)) ?rest"
    by (rule nth_equalityI) (simp_all add: nth_renumber)
  show ?thesis
    using len keep by (simp add: outlines_onCardDelete contiguous_renumber)
qed

theorem onCardDelete_by_id_witness:
  "length (filter (\<lambda>c. id_c c = ''y'') (outlines (store (mkPage xyz '''')))) = 1
   \<and> length (outlines (store (onCardDelete ''y'' (mkPage xyz '''')))) = 2
   \<and> contiguous (outlines (store (onCardDelete ''y'' (mkPage xyz ''''))))
   \<and> outlines (store (onCardDelete ''y'' (mkPage xyz '''')))
       = [\<lparr>id_c = ''x'', title = ''X'', order = 1\<rparr>, \<lparr>id_c = ''z'', title = ''Z'', order = 2\<rparr>]"
proof -
  have one: "length (filter (\<lambda>c. id_c c = ''y'') (outlines (store (mkPage xyz '''')))) = 1"
    by (simp add: mkPage_def xyz_def)
  have res: "outlines (store (onCardDelete ''y'' (mkPage xyz '''')))
       = [\<lparr>id_c = ''x'', title = ''X'', order = 1\<rparr>, \<lparr>id_c = ''z'', title = ''Z'', order = 2\<rparr>]"
    by (simp add: outlines_onCardDelete mkPage_def xyz_def renumber_def enumerate_eq_zip upt_rec)
  from onCardDelete_by_id [OF one] one res show ?thesis
    by (simp add: mkPage_def xyz_def)
qed

section \<open>The drag state\<close>

lemma onDragEnd_clears: "draggedItem (onDragEnd st) = None \<and> dragOverIndex (onDragEnd st) = None"
  by (simp add: onDragEnd_def)

lemma onDrop_commit_clears:
  assumes "draggedItem st = Some dragged" and "dragOverIndex st = Some over"
    and "findIndex (\<lambda>c. id_c c = id_c dragged) (outlines (store st)) \<noteq> -1"
    and "findIndex (\<lambda>c. id_c c = id_c dragged) (outlines (store st)) \<noteq> over"
  shows "draggedItem (onDrop st) = None \<and> dragOverIndex (onDrop st) = None"
  using assms by (simp add: onDrop_def Let_def commitOutlines_def split: prod.splits)

lemma onDrop_abort_keeps:
  assumes "draggedItem st = Some dragged" and "dragOverIndex st = Some over"
    and "findIndex (\<lambda>c. id_c c = id_c dragged) (outlines (store st)) = -1
         \<or> findIndex (\<lambda>c. id_c c = id_c dragged) (outlines (store st)) = over"
  shows "onDrop st = st"
  using assms(3,1,2) unfolding onDrop_def Let_def by (cases rule: disjE) simp_all

text \<open>
  Claim C6. The claim has the drag state (dragged card and hover index) cleared on every
  way out of a drag: a drop that commits, a drop that aborts, and the end of the drag.
  \<^verbatim>\<open>onDragEnd\<close> and the committing path of \<^verbatim>\<open>onDrop\<close> clear it (the two lemmas above); the
  two early returns of \<^verbatim>\<open>onDrop\<close> leave before \<^verbatim>\<open>setDraggedItem(null)\<close> and
  \<^verbatim>\<open>setDragOverIndex(null)\<close>. Dropping b of a, b, c on its own position, and dropping a
  card that is not in the list, both leave the drag state set.
\<close>

theorem onDrop_abort_keeps_drag_state:
  "draggedItem (onDrop ((mkPage abc '''')
      \<lparr>draggedItem := Some \<lparr>id_c = ''b'', title = ''B'', order = 2\<rparr>, dragOverIndex := Some 1\<rparr>))
     = Some \<lparr>id_c = ''b'', title = ''B'', order = 2\<rparr>
   \<and> dragOverIndex (onDrop ((mkPage abc '''')
      \<lparr>draggedItem := Some \<lparr>id_c = ''b'', title = ''B'', order = 2\<rparr>, dragOverIndex := Some 1\<rparr>))
     = Some 1
   \<and> draggedItem (onDrop ((mkPage abc '''')
      \<lparr>draggedItem := Some \<lparr>id_c = ''z'', title = ''Z'', order = 9\<rparr>, dragOverIndex := Some 0\<rparr>))
     = Some \<lparr>id_c = ''z'', title = ''Z'', order = 9\<rparr>
   \<and> dragOverIndex (onDrop ((mkPage abc '''')
      \<lparr>draggedItem := Some \<lparr>id_c = ''z'', title = ''Z'', order = 9\<rparr>, dragOverIndex := Some 0\<rparr>))
     = Some 0"
  by (simp add: onDrop_def mkPage_def abc_def findIndex_def)

section \<open>Resetting\<close>

text \<open>
  Claim C7, as the code has it. The store's \<^verbatim>\<open>resetOutlines\<close> empties the outline list and
  leaves the current prompt as it is; the page's \<^verbatim>\<open>resetCards\<close>, which calls
  \<^verbatim>\<open>setCurrentAiPrompt('')\<close> and then \<^verbatim>\<open>resetOutlines()\<close>, leaves both empty, whatever the
  state before.
\<close>

theorem reset_clears:
  "outlines (resetOutlines state) = []
   \<and> currentAiPrompt (resetOutlines state) = currentAiPrompt state
   \<and> outlines (store (resetCards st)) = []
   \<and> currentAiPrompt (store (resetCards st)) = ''''"
  by (simp add: resetOutlines_def resetCards_def setCurrentAiPrompt_def)

text \<open>The store's reset on a store that holds the prompt \<open>topic\<close>: the prompt stays.\<close>

theorem resetOutlines_prompt_counterexample:
  "currentAiPrompt (resetOutlines \<lparr>outlines = xyz, currentAiPrompt = ''topic''\<rparr>) = ''topic''
   \<and> currentAiPrompt (resetOutlines \<lparr>outlines = xyz, currentAiPrompt = ''topic''\<rparr>) \<noteq> ''''"
  by (simp add: resetOutlines_def)

section \<open>Validation\<close>


text \<open>
  The guard of \<^verbatim>\<open>handleGenerate\<close> on the empty list comes after \<^verbatim>\<open>setIsGenerating(true)\<close> and
  returns outside the \<^verbatim>\<open>try\<close> block whose \<^verbatim>\<open>finally\<close> resets the flag. The page never
  runs the handler there: every click it offers is on a non-empty list, and then the
  flag is off again when the handler is done, whatever the answer.
\<close>

lemma handleGenerate_empty_outlines:
  "outlines (store st) = [] \<Longrightarrow>
   handleGenerate newId date res st =
     st\<lparr>isGenerating := True,
        effects := effects st @ [ToastError ''ERROR'' ''Please add at least one card to generate slides'']\<rparr>"
  by (simp add: handleGenerate_def toast_def Let_def)

lemma handleGenerate_flag_off:
  "outlines (store st) \<noteq> [] \<Longrightarrow> isGenerating (handleGenerate newId date res st) = False"
  by (simp add: handleGenerate_def toast_def createProjectFailed_def Let_def
      split: outcome.splits option.splits)

lemma generateButtonClick_nonempty:
  "generateButtonClick newId date res st = Some st' \<Longrightarrow>
   outlines (store st) \<noteq> [] \<and> st' = handleGenerate newId date res st"
  by (auto simp: generateButtonClick_def split: if_splits)




section \<open>What project creation sends\<close>

lemma slice_from_0: "0 \<le> n \<Longrightarrow> slice 0 n xs = take (min (nat n) (length xs)) xs"
  by (simp add: slice_def spliceStart_def Let_def)

text \<open>
  Claim C10. For a non-empty outline list of length \<open>N\<close> and a counter \<^verbatim>\<open>noOfCards\<close> that is
  not negative, the request \<^verbatim>\<open>createProject\<close> that \<^verbatim>\<open>handleGenerate\<close> makes carries the first
  \<open>min(noOfCards, N)\<close> cards, whatever the answer; when the project is created, the record
  given to \<^verbatim>\<open>addPrompt\<close> holds the whole list. The effect sets the counter to \<open>N\<close> only when
  \<open>N\<close> differs from the length of the previous render.
\<close>

theorem handleGenerate_sends_prefix:
  assumes "outlines (store st) \<noteq> []" and "0 \<le> noOfCards st"
  shows "take 1 (drop (length (effects st)) (effects (handleGenerate newId date res st)))
           = [CreateProject (currentAiPrompt (store st))
                (take (min (nat (noOfCards st)) (length (outlines (store st)))) (outlines (store st)))]
       \<and> effects (handleGenerate newId date (Resolved \<lparr>status = 200, data = Some project\<rparr>) st)
           = effects st @
             [CreateProject (currentAiPrompt (store st))
                (take (min (nat (noOfCards st)) (length (outlines (store st)))) (outlines (store st))),
              RouterPush (''/presentation/'' @ id_p project @ ''/select-theme''),
              SetProject project,
              AddPrompt \<lparr>id_r = newId,
                         title_r = (if currentAiPrompt (store st) = ''''
                                    then title (hd (outlines (store st)))
                                    else currentAiPrompt (store st)),
                         outlines_r = outlines (store st), createdAt = date\<rparr>,
              ToastSuccess ''Success'' ''Project created successfully! '']
       \<and> noOfCards (noOfCardsEffect previous st)
           = (if previous = Some (length (outlines (store st))) then noOfCards st
              else int (length (outlines (store st))))"
proof -
  have s: "slice 0 (noOfCards st) (outlines (store st))
           = take (min (nat (noOfCards st)) (length (outlines (store st)))) (outlines (store st))"
    using assms(2) by (rule slice_from_0)
  have 1: "take 1 (drop (length (effects st)) (effects (handleGenerate newId date res st)))
           = [CreateProject (currentAiPrompt (store st))
                (take (min (nat (noOfCards st)) (length (outlines (store st)))) (outlines (store st)))]"
    using assms(1)
    by (simp add: handleGenerate_def Let_def toast_def createProjectFailed_def s
        split: outcome.splits option.splits)
  have 2: "effects (handleGenerate newId date (Resolved \<lparr>status = 200, data = Some project\<rparr>) st)
           = effects st @
             [CreateProject (currentAiPrompt (store st))
                (take (min (nat (noOfCards st)) (length (outlines (store st)))) (outlines (store st))),
              RouterPush (''/presentation/'' @ id_p project @ ''/select-theme''),
              SetProject project,
              AddPrompt \<lparr>id_r = newId,
                         title_r = (if currentAiPrompt (store st) = ''''
                                    then title (hd (outlines (store st)))
                                    else currentAiPrompt (store st)),
                         outlines_r = outlines (store st), createdAt = date\<rparr>,
              ToastSuccess ''Success'' ''Project created successfully! '']"
    using assms(1) by (simp add: handleGenerate_def Let_def toast_def s)
  have 3: "noOfCards (noOfCardsEffect previous st)
           = (if previous = Some (length (outlines (store st))) then noOfCards st
              else int (length (outlines (store st))))"
    by (simp add: noOfCardsEffect_def)
  from 1 2 3 show ?thesis by blast
qed

text \<open>
  Three cards x, y, z; the user picks 2 in the select box; the length of the list has not
  changed, so the effect leaves the counter at 2; the request carries x and y, the prompt
  record all three.
\<close>

theorem handleGenerate_sends_prefix_witness:
  "outlines (store picked2) = xyz
   \<and> noOfCards (noOfCardsEffect (Some 3) picked2) = 2
   \<and> effects (handleGenerate ''r1'' ''today'' (Resolved \<lparr>status = 200, data = Some \<lparr>id_p = ''p1''\<rparr>\<rparr>) picked2)
       = [CreateProject ''topic'' (take 2 xyz),
          RouterPush ''/presentation/p1/select-theme'',
          SetProject \<lparr>id_p = ''p1''\<rparr>,
          AddPrompt \<lparr>id_r = ''r1'', title_r = ''topic'', outlines_r = xyz, createdAt = ''today''\<rparr>,
          ToastSuccess ''Success'' ''Project created successfully! '']"
proof -
  have a: "outlines (store picked2) \<noteq> []"
    by (simp add: picked2_def onValueChange_def mkPage_def xyz_def)
  have b: "0 \<le> noOfCards picked2"
    by (simp add: picked2_def onValueChange_def mkPage_def)
  from handleGenerate_sends_prefix [OF a b, of "''r1''" "''today''" _ "\<lparr>id_p = ''p1''\<rparr>" "Some 3"]
  show ?thesis
    by (simp add: picked2_def onValueChange_def mkPage_def xyz_def)
qed

section \<open>The debounced auto-save\<close>

lemma run_append: "run (evs @ evs') ed = run evs' (run evs ed)"
  by (simp add: run_def)

lemma run_Cons: "run (ev # evs) ed = run evs (step ev ed)"
  by (simp add: run_def)

lemma run_Nil: "run [] ed = ed"
  by (simp add: run_def)

lemma advance_idle:
  "timers ed = [] \<Longrightarrow> advance ms ed = ed\<lparr>now := now ed + ms\<rparr>"
  by (simp add: advance_def)

lemma advance_armed_early:
  assumes "armed p slides ed" and "ms < 2000"
  shows "advance ms ed = ed\<lparr>now := now ed + ms\<rparr>"
  using assms by (auto simp: armed_def advance_def)

lemma advance_armed_late:
  assumes "armed p slides ed" and "2000 \<le> ms"
  shows "advance ms ed =
           ed\<lparr>now := now ed + ms, timers := [],
              updateSlidesCalls := updateSlidesCalls ed @ [(now ed + 2000, id_p p, slides)]\<rparr>"
  using assms by (auto simp: armed_def advance_def fire_def saveSlides_def)

lemma change_idle:
  assumes "timers ed = []"
  shows "armed p slides (step (Change True (Some p) slides) ed)
         \<and> now (step (Change True (Some p) slides) ed) = now ed
         \<and> updateSlidesCalls (step (Change True (Some p) slides) ed) = updateSlidesCalls ed"
  using assms
  by (simp add: armed_def autoSaveEffect_def autoSaveCleanup_def clearTimeout_def Let_def
      split: option.splits)

lemma cleanup_armed:
  assumes "armed p slides ed"
  shows "autoSaveCleanup ed = ed\<lparr>timers := []\<rparr>"
  using assms by (auto simp: armed_def autoSaveCleanup_def clearTimeout_def)

lemma change_armed:
  assumes "armed p0 slides0 ed"
  shows "armed p slides (step (Change True (Some p) slides) ed)
         \<and> now (step (Change True (Some p) slides) ed) = now ed
         \<and> updateSlidesCalls (step (Change True (Some p) slides) ed) = updateSlidesCalls ed"
proof -
  have "step (Change True (Some p) slides) ed
        = step (Change True (Some p) slides) (ed\<lparr>timers := []\<rparr>)"
    using cleanup_armed [OF assms]
    by (simp add: autoSaveCleanup_def clearTimeout_def split: option.splits)
  moreover have "timers (ed\<lparr>timers := []\<rparr>) = []" by simp
  ultimately show ?thesis using change_idle [of "ed\<lparr>timers := []\<rparr>" p slides] by simp
qed

lemma burst_armed:
  "armed p slides ed \<Longrightarrow> quiet cs \<Longrightarrow>
   armed p (snd (last ((g, slides) # cs))) (run (burst p cs) ed)
   \<and> now (run (burst p cs) ed) = burstEnd (now ed) cs
   \<and> updateSlidesCalls (run (burst p cs) ed) = updateSlidesCalls ed"
proof (induction cs arbitrary: slides ed g)
  case Nil
  then show ?case by (simp add: run_Nil)
next
  case (Cons c cs)
  obtain gap s where c: "c = (gap, s)" by (cases c)
  from Cons.prems c have gap: "gap < 2000" and q: "quiet cs" by simp_all
  let ?ed1 = "step (Wait gap) ed"
  let ?ed2 = "step (Change True (Some p) s) ?ed1"
  have w: "?ed1 = ed\<lparr>now := now ed + gap\<rparr>"
    using advance_armed_early [OF Cons.prems(1) gap] by simp
  have tm: "\<exists>h. timers ?ed1 = [\<lparr>handle = h, due = now ed + 2000, t_isEditable = True,
                         t_project = Some p, t_slides = slides\<rparr>] \<and> autoSaveTimeoutRef ?ed1 = Some h"
    using Cons.prems(1) w by (auto simp: armed_def)
  have clean: "autoSaveCleanup ?ed1 = ?ed1\<lparr>timers := []\<rparr>"
    using tm by (auto simp: autoSaveCleanup_def clearTimeout_def)
  have eq: "?ed2 = step (Change True (Some p) s) (?ed1\<lparr>timers := []\<rparr>)"
    using clean by (simp add: autoSaveCleanup_def clearTimeout_def split: option.splits)
  have ch: "armed p s ?ed2 \<and> now ?ed2 = now ?ed1 \<and> updateSlidesCalls ?ed2 = updateSlidesCalls ?ed1"
    using change_idle [of "?ed1\<lparr>timers := []\<rparr>" p s] eq by simp
  then have ar: "armed p s ?ed2" by simp
  have r: "run (burst p (c # cs)) ed = run (burst p cs) ?ed2"
    by (simp add: c run_Cons)
  from Cons.IH [OF ar q, of gap] ch w r c show ?case
    by (cases cs) simp_all
qed

text \<open>
  Claim C9. In an editable editor with a project, take a burst of content changes that
  starts with no timer pending and in which each change comes less than 2000 ms after
  the one before. Every change clears the pending timer and sets a new one for 2000 ms
  later: during the burst \<^verbatim>\<open>updateSlides\<close> is not called, and after it one timer is
  pending, due 2000 ms after the last change. When at least 2000 ms pass, \<^verbatim>\<open>updateSlides\<close>
  is called exactly once, 2000 ms after the last change, with the slides of the last
  change, and no further call follows. If the editor unmounts after the burst instead,
  no call is made however long one waits. With changes at 0, 500 and 700 ms the one call
  is at 2700 ms with the slides of 700 ms (the witness).
\<close>

theorem debounce_collapsing:
  assumes "timers ed = []" and "quiet cs" and "2000 \<le> d"
  shows "updateSlidesCalls (run (burst p ((g, s) # cs)) ed) = updateSlidesCalls ed
       \<and> map due (timers (run (burst p ((g, s) # cs)) ed)) = [burstEnd (now ed) ((g, s) # cs) + 2000]
       \<and> updateSlidesCalls (run (burst p ((g, s) # cs) @ [Wait d]) ed)
           = updateSlidesCalls ed
               @ [(burstEnd (now ed) ((g, s) # cs) + 2000, id_p p, snd (last ((g, s) # cs)))]
       \<and> updateSlidesCalls (run (burst p ((g, s) # cs) @ [Wait d, Wait d']) ed)
           = updateSlidesCalls ed
               @ [(burstEnd (now ed) ((g, s) # cs) + 2000, id_p p, snd (last ((g, s) # cs)))]
       \<and> updateSlidesCalls (run (burst p ((g, s) # cs) @ [Unmount, Wait d']) ed)
           = updateSlidesCalls ed"
proof -
  let ?ed1 = "step (Wait g) ed"
  let ?ed2 = "step (Change True (Some p) s) ?ed1"
  let ?end = "run (burst p ((g, s) # cs)) ed"
  let ?t = "burstEnd (now ed) ((g, s) # cs)"
  let ?last = "snd (last ((g, s) # cs))"
  have w: "?ed1 = ed\<lparr>now := now ed + g\<rparr>"
    using advance_idle [OF assms(1)] by simp
  then have "timers ?ed1 = []" using assms(1) by simp
  from change_idle [OF this, of p s] w
  have ar: "armed p s ?ed2" and n2: "now ?ed2 = now ed + g"
    and c2: "updateSlidesCalls ?ed2 = updateSlidesCalls ed" by simp_all
  have r: "?end = run (burst p cs) ?ed2" by (simp add: run_Cons)
  from burst_armed [OF ar assms(2), of g] r n2 c2
  have a: "armed p ?last ?end" and n: "now ?end = ?t"
    and c: "updateSlidesCalls ?end = updateSlidesCalls ed" by simp_all
  have pend: "map due (timers ?end) = [?t + 2000]"
    using a n by (auto simp: armed_def)
  have late: "advance d ?end =
           ?end\<lparr>now := now ?end + d, timers := [],
              updateSlidesCalls := updateSlidesCalls ?end @ [(now ?end + 2000, id_p p, ?last)]\<rparr>"
    using a assms(3) by (rule advance_armed_late)
  have one: "updateSlidesCalls (run (burst p ((g, s) # cs) @ [Wait d]) ed)
             = updateSlidesCalls ed @ [(?t + 2000, id_p p, ?last)]"
    using late n c by (simp add: run_append run_Cons run_Nil)
  have idle: "timers (advance d ?end) = []" using late by simp
  have still: "updateSlidesCalls (run (burst p ((g, s) # cs) @ [Wait d, Wait d']) ed)
             = updateSlidesCalls ed @ [(?t + 2000, id_p p, ?last)]"
    using advance_idle [OF idle, of d'] late n c by (simp add: run_append run_Cons run_Nil)
  have un: "autoSaveCleanup ?end = ?end\<lparr>timers := []\<rparr>"
    using a by (rule cleanup_armed)
  then have "timers (autoSaveCleanup ?end) = []" by simp
  from advance_idle [OF this, of d'] un c
  have torn: "updateSlidesCalls (run (burst p ((g, s) # cs) @ [Unmount, Wait d']) ed)
             = updateSlidesCalls ed"
    by (simp add: run_append run_Cons run_Nil)
  from c pend one still torn show ?thesis by blast
qed

theorem debounce_collapsing_witness:
  "timers (initialEditor :: string editor) = []
   \<and> quiet [(500, ''v1''), (200, ''v2'')]
   \<and> burst \<lparr>id_p = ''p1''\<rparr> [(0, ''v0''), (500, ''v1''), (200, ''v2'')]
       = [Wait 0, Change True (Some \<lparr>id_p = ''p1''\<rparr>) ''v0'',
          Wait 500, Change True (Some \<lparr>id_p = ''p1''\<rparr>) ''v1'',
          Wait 200, Change True (Some \<lparr>id_p = ''p1''\<rparr>) ''v2'']
   \<and> updateSlidesCalls
        (run (burst \<lparr>id_p = ''p1''\<rparr> [(0, ''v0''), (500, ''v1''), (200, ''v2'')] @ [Wait 2000])
           initialEditor)
       = [(2700, ''p1'', ''v2'')]
   \<and> updateSlidesCalls
        (run (burst \<lparr>id_p = ''p1''\<rparr> [(0, ''v0''), (500, ''v1''), (200, ''v2'')] @ [Wait 2000, Wait 10000])
           initialEditor)
       = [(2700, ''p1'', ''v2'')]
   \<and> updateSlidesCalls
        (run (burst \<lparr>id_p = ''p1''\<rparr> [(0, ''v0''), (500, ''v1''), (200, ''v2'')] @ [Unmount, Wait 10000])
           initialEditor)
       = []"
proof -
  have i: "timers (initialEditor :: string editor) = []"
    by (simp add: initialEditor_def)
  have q: "quiet [(500, ''v1''), (200, ''v2'')]" by simp
  have d: "(2000::nat) \<le> 2000" by simp
  from debounce_collapsing [OF i q d, of "\<lparr>id_p = ''p1''\<rparr>" 0 "''v0''" 10000] i q
  show ?thesis by (simp add: initialEditor_def)
qed

end
